theory Spec2Isabelle
  imports Complex_Main
begin

section \<open>Persisted entities\<close>

text \<open>
  The rows the transcription pipeline reads and writes (\<^verbatim>\<open>app/models/video.py\<close>,
  \<^verbatim>\<open>app/models/transcription.py\<close>). A Python \<^verbatim>\<open>str\<close> is a \<open>string\<close>, one list element
  per character; a Python \<^verbatim>\<open>int\<close> is an \<open>int\<close>; a \<^verbatim>\<open>float\<close> is a \<open>real\<close>. The columns of
  \<^verbatim>\<open>Video\<close> that the pipeline never touches (file size, duration, ranking, timestamps)
  are left out. A table is the list of its rows in the order a query returns them;
  \<open>v_id\<close> is the primary key.
\<close>

record video =
  v_id :: int
  v_filename :: string
  v_filepath :: string
  v_status :: string
  v_error_message :: "string option"

record transcription =
  t_id :: int
  t_video_id :: int
  t_full_text :: string
  t_language :: string
  t_model_used :: string
  t_processing_time_seconds :: real

record transcription_segment =
  ts_transcription_id :: int
  ts_start_time :: real
  ts_end_time :: real
  ts_text :: string

record database =
  videos :: "video list"
  transcriptions :: "transcription list"
  transcription_segments :: "transcription_segment list"

text \<open>\<^verbatim>\<open>db.query(Video).filter(Video.id == video_id).first()\<close>\<close>

definition find_video :: "int \<Rightarrow> database \<Rightarrow> video option" where
  "find_video vid d = find (\<lambda>v. v_id v = vid) (videos d)"

text \<open>Assigning attributes of the row loaded for \<open>vid\<close> and committing.\<close>

definition update_video :: "int \<Rightarrow> (video \<Rightarrow> video) \<Rightarrow> database \<Rightarrow> database" where
  "update_video vid f d = d\<lparr>videos := map (\<lambda>v. if v_id v = vid then f v else v) (videos d)\<rparr>"

section \<open>The transcription service\<close>

text \<open>
  \<^verbatim>\<open>app/services/transcription_service.py\<close>. The module's globals are the fields of
  \<open>tstate\<close>. \<open>model\<close> is \<^verbatim>\<open>_model\<close>: \<open>None\<close>, or the engine instance, named by the
  number of the construction that made it; \<open>constructions\<close> counts the calls of
  \<^verbatim>\<open>whisper.load_model\<close> that returned. \<open>worker_thread\<close> says that \<^verbatim>\<open>_worker_thread\<close> is
  a live thread, \<open>worker_job\<close> holds the worker's local variables
  \<^verbatim>\<open>video_id, filepath\<close> while it is inside the loop body, and \<open>history\<close> records when
  the worker entered and left the body for each job.
\<close>

type_synonym job = "int \<times> string"

datatype hevent = Started job | Finished job

record settings =
  WHISPER_MODEL :: string
  WHISPER_LANGUAGE :: string

record tstate =
  cfg :: settings
  model :: "nat option"
  model_loading :: bool
  constructions :: nat
  task_queue :: "job list"
  worker_thread :: bool
  worker_job :: "job option"
  current_video_id :: "int option"
  current_step :: string
  current_start_time :: "real option"
  queue_video_ids :: "int list"
  db :: database
  history :: "hevent list"

text \<open>The state after the module is imported, over a database \<open>d\<close>.\<close>

definition initial :: "settings \<Rightarrow> database \<Rightarrow> tstate" where
  "initial c d =
     \<lparr>cfg = c, model = None, model_loading = False, constructions = 0, task_queue = [],
      worker_thread = False, worker_job = None, current_video_id = None,
      current_step = '''', current_start_time = None, queue_video_ids = [], db = d,
      history = []\<rparr>"

subsection \<open>Queue position\<close>

text \<open>\<^verbatim>\<open>list.index\<close>: the first position of \<open>x\<close>, or \<open>None\<close> for \<^verbatim>\<open>ValueError\<close>.\<close>

fun index_of :: "'a \<Rightarrow> 'a list \<Rightarrow> nat option" where
  "index_of x [] = None"
| "index_of x (y # ys) =
     (if y = x then Some 0 else (case index_of x ys of None \<Rightarrow> None | Some i \<Rightarrow> Some (Suc i)))"

definition get_video_queue_position :: "int \<Rightarrow> tstate \<Rightarrow> int option" where
  "get_video_queue_position vid s =
     (if current_video_id s = Some vid then Some 0
      else (case index_of vid (queue_video_ids s) of
              Some i \<Rightarrow> Some (int i + 1)
            | None \<Rightarrow> None))"

subsection \<open>The engine singleton\<close>

text \<open>
  \<^verbatim>\<open>get_model\<close>, in the three stretches a thread runs it in: the test
  \<^verbatim>\<open>_model is None\<close> with the flag \<^verbatim>\<open>_model_loading = True\<close> that follows it; the call of
  \<^verbatim>\<open>whisper.load_model\<close> with the two assignments after it; and \<^verbatim>\<open>return _model\<close>. What
  the library call does is given from outside: \<open>ld\<close> is \<open>None\<close> when it returns an
  engine and \<open>Some e\<close> when it raises, \<open>e\<close> being \<^verbatim>\<open>str\<close> of the exception. The
  function takes no lock.
\<close>

definition get_model_test :: "tstate \<Rightarrow> bool \<times> tstate" where
  "get_model_test s =
     (if model s = None then (True, s\<lparr>model_loading := True\<rparr>) else (False, s))"

definition get_model_load :: "string option \<Rightarrow> tstate \<Rightarrow> string option \<times> tstate" where
  "get_model_load ld s =
     (case ld of
        Some e \<Rightarrow> (Some e, s)
      | None \<Rightarrow>
          (None, s\<lparr>model := Some (Suc (constructions s)),
                    constructions := Suc (constructions s),
                    model_loading := False\<rparr>))"

definition get_model_return :: "tstate \<Rightarrow> nat option" where
  "get_model_return s = model s"

text \<open>One call of \<^verbatim>\<open>get_model\<close> run from start to end: the exception, or the engine.\<close>

definition get_model :: "string option \<Rightarrow> tstate \<Rightarrow> (string + nat option) \<times> tstate" where
  "get_model ld s =
     (case get_model_test s of
        (True, s1) \<Rightarrow>
          (case get_model_load ld s1 of
             (Some e, s2) \<Rightarrow> (Inl e, s2)
           | (None, s2) \<Rightarrow> (Inr (get_model_return s2), s2))
      | (False, s1) \<Rightarrow> (Inr (get_model_return s1), s1))"

subsection \<open>Processing one job\<close>

text \<open>
  What the collaborators do during one job is given from outside, as an \<open>outcome\<close>:
  for each call that can raise inside a \<^verbatim>\<open>try\<close> block of the source, \<open>None\<close> when it
  succeeds and \<open>Some e\<close> (\<^verbatim>\<open>str\<close> of the exception) when it raises. \<open>o_transcribe\<close> is
  the engine's answer, \<open>o_elapsed\<close> the measured time, \<open>o_new_id\<close> the key the database
  gives the new transcription row at \<^verbatim>\<open>flush\<close>, \<open>o_mark_error\<close> the query and commit of
  \<^verbatim>\<open>_mark_error\<close>. The engine's answer has its \<^verbatim>\<open>text\<close> and its segments their three
  fields; \<^verbatim>\<open>language\<close> and \<^verbatim>\<open>segments\<close> may be missing, as the source reads them with
  \<^verbatim>\<open>.get\<close>.
\<close>

record segment =
  seg_start :: real
  seg_end :: real
  seg_text :: string

record whisper_result =
  r_text :: string
  r_language :: "string option"
  r_segments :: "segment list option"

record outcome =
  o_query :: "string option"
  o_commit_transcribing :: "string option"
  o_load_model :: "string option"
  o_transcribe :: "string + whisper_result"
  o_elapsed :: real
  o_new_id :: int
  o_flush :: "string option"
  o_commit_transcribed :: "string option"
  o_mark_error :: "string option"

text \<open>Lines 115 to 135: the transcription row, its segments, and the final status.\<close>

definition store_transcription ::
  "settings \<Rightarrow> int \<Rightarrow> whisper_result \<Rightarrow> real \<Rightarrow> int \<Rightarrow> database \<Rightarrow> database" where
  "store_transcription c vid result elapsed new_id d =
     (let row = \<lparr>t_id = new_id, t_video_id = vid, t_full_text = r_text result,
                  t_language = (case r_language result of
                                  Some l \<Rightarrow> l | None \<Rightarrow> WHISPER_LANGUAGE c),
                  t_model_used = WHISPER_MODEL c,
                  t_processing_time_seconds = elapsed\<rparr>;
          segs = map (\<lambda>g. \<lparr>ts_transcription_id = new_id, ts_start_time = seg_start g,
                             ts_end_time = seg_end g, ts_text = seg_text g\<rparr>)
                   (case r_segments result of Some gs \<Rightarrow> gs | None \<Rightarrow> [])
      in update_video vid (\<lambda>v. v\<lparr>v_status := ''transcribed''\<rparr>)
           (d\<lparr>transcriptions := transcriptions d @ [row],
               transcription_segments := transcription_segments d @ segs\<rparr>))"

text \<open>
  \<^verbatim>\<open>_transcribe_video\<close>: \<open>Some e\<close> when it raises (after \<^verbatim>\<open>db.rollback()\<close>, which drops
  what was not committed), \<open>None\<close> when it returns.
\<close>

definition transcribe_video ::
  "outcome \<Rightarrow> int \<Rightarrow> string \<Rightarrow> tstate \<Rightarrow> string option \<times> tstate" where
  "transcribe_video oc vid path s =
     (case o_query oc of
        Some e \<Rightarrow> (Some e, s)
      | None \<Rightarrow>
     (case find_video vid (db s) of
        None \<Rightarrow> (None, s)
      | Some video \<Rightarrow>
     (case o_commit_transcribing oc of
        Some e \<Rightarrow> (Some e, s)
      | None \<Rightarrow>
     (let s1 = s\<lparr>db := update_video vid (\<lambda>v. v\<lparr>v_status := ''transcribing''\<rparr>) (db s)\<rparr>;
          s2 = s1\<lparr>current_step := ''model_loading''\<rparr>
      in case get_model (o_load_model oc) s2 of
        (Inl e, s3) \<Rightarrow> (Some e, s3)
      | (Inr m, s3) \<Rightarrow>
     (let s4 = s3\<lparr>current_step := ''transcribing''\<rparr>
      in case o_transcribe oc of
        Inl e \<Rightarrow> (Some e, s4)
      | Inr result \<Rightarrow>
     (case o_flush oc of
        Some e \<Rightarrow> (Some e, s4)
      | None \<Rightarrow>
     (case o_commit_transcribed oc of
        Some e \<Rightarrow> (Some e, s4)
      | None \<Rightarrow>
          (None, s4\<lparr>db := store_transcription (cfg s4) vid result (o_elapsed oc)
                              (o_new_id oc) (db s4)\<rparr>))))))))"

text \<open>
  \<^verbatim>\<open>_mark_error\<close>: an exception of its own query or commit is logged and rolled back,
  and nothing is raised.
\<close>

definition mark_error :: "string option \<Rightarrow> int \<Rightarrow> string \<Rightarrow> tstate \<Rightarrow> tstate" where
  "mark_error fails vid error_msg s =
     (let truncated = (if length error_msg > 500 then take 500 error_msg else error_msg)
      in case fails of
           Some e \<Rightarrow> s
         | None \<Rightarrow>
             (case find_video vid (db s) of
                None \<Rightarrow> s
              | Some video \<Rightarrow>
                  s\<lparr>db := update_video vid
                     (\<lambda>v. v\<lparr>v_status := ''error'', v_error_message := Some truncated\<rparr>)
                     (db s)\<rparr>))"


subsection \<open>The worker loop and the queue\<close>

text \<open>
  One turn of \<^verbatim>\<open>_worker\<close>'s loop, in two stretches. \<open>worker_take\<close> is lines 64 to 69:
  \<^verbatim>\<open>_task_queue.get()\<close>, which blocks on an empty queue (the state stays as it is), then
  the bookkeeping under the lock; \<open>now\<close> is what \<^verbatim>\<open>time.time()\<close> returns.
  \<open>worker_finish\<close> is lines 70 to 80: the \<^verbatim>\<open>try\<close>, its \<^verbatim>\<open>except Exception\<close> and its
  \<^verbatim>\<open>finally\<close> (\<^verbatim>\<open>task_done\<close> only counts for \<^verbatim>\<open>Queue.join\<close>, which nothing calls).
\<close>

definition worker_take :: "real \<Rightarrow> tstate \<Rightarrow> tstate" where
  "worker_take now s =
     (case task_queue s of
        [] \<Rightarrow> s
      | (vid, path) # rest \<Rightarrow>
          s\<lparr>task_queue := rest,
            worker_job := Some (vid, path),
            current_video_id := Some vid,
            current_start_time := Some now,
            queue_video_ids :=
              (if vid \<in> set (queue_video_ids s) then remove1 vid (queue_video_ids s)
               else queue_video_ids s),
            history := history s @ [Started (vid, path)]\<rparr>)"

definition worker_finish :: "outcome \<Rightarrow> tstate \<Rightarrow> tstate" where
  "worker_finish oc s =
     (case worker_job s of
        None \<Rightarrow> s
      | Some (vid, path) \<Rightarrow>
          (let s2 = (case transcribe_video oc vid path s of
                       (None, s1) \<Rightarrow> s1
                     | (Some e, s1) \<Rightarrow> mark_error (o_mark_error oc) vid e s1)
           in s2\<lparr>current_video_id := None,
                 current_step := [],
                 current_start_time := None,
                 worker_job := None,
                 history := history s2 @ [Finished (vid, path)]\<rparr>))"

text \<open>
  \<^verbatim>\<open>enqueue_transcription\<close>, in the four stretches a request thread runs it in: the
  append under \<^verbatim>\<open>_lock\<close> (lines 85 and 86); the test of line 87, which holds no lock;
  lines 88 and 89, which start a thread on \<^verbatim>\<open>_worker\<close> and keep it in
  \<^verbatim>\<open>_worker_thread\<close>; and the \<^verbatim>\<open>put\<close> of line 90. A started worker never leaves its
  loop, so \<^verbatim>\<open>is_alive()\<close> holds of every thread that was started.
\<close>

definition enqueue_append :: "int \<Rightarrow> tstate \<Rightarrow> tstate" where
  "enqueue_append vid s = s\<lparr>queue_video_ids := queue_video_ids s @ [vid]\<rparr>"

definition enqueue_test :: "tstate \<Rightarrow> bool" where
  "enqueue_test s = (\<not> worker_thread s)"

definition enqueue_start :: "tstate \<Rightarrow> tstate" where
  "enqueue_start s = s\<lparr>worker_thread := True\<rparr>"

definition enqueue_put :: "int \<Rightarrow> string \<Rightarrow> tstate \<Rightarrow> tstate" where
  "enqueue_put vid path s = s\<lparr>task_queue := task_queue s @ [(vid, path)]\<rparr>"

text \<open>One call of \<^verbatim>\<open>enqueue_transcription\<close> run from start to end with no other call in between.\<close>

definition enqueue_transcription :: "int \<Rightarrow> string \<Rightarrow> tstate \<Rightarrow> tstate" where
  "enqueue_transcription vid path s =
     (let s1 = enqueue_append vid s;
          s2 = (if enqueue_test s1 then enqueue_start s1 else s1)
      in enqueue_put vid path s2)"

text \<open>
  A run of the process with one caller at a time is a list of events: a call of
  \<^verbatim>\<open>enqueue_transcription\<close> run from start to end, or the worker thread running its
  next stretch. The worker takes a job only when it is at the top of its loop, and
  finishes only the job it holds; an event that cannot happen leaves the state as it is.
  Calls that overlap are the matter of the next subsection.
\<close>

datatype event = Enqueue int string | Take real | Finish outcome

fun step :: "tstate \<Rightarrow> event \<Rightarrow> tstate" where
  "step s (Enqueue vid path) = enqueue_transcription vid path s"
| "step s (Take now) =
     (if worker_thread s \<and> worker_job s = None then worker_take now s else s)"
| "step s (Finish oc) = (if worker_thread s then worker_finish oc s else s)"

definition run :: "tstate \<Rightarrow> event list \<Rightarrow> tstate" where
  "run s evs = foldl step s evs"






subsection \<open>Request threads and worker threads side by side\<close>

text \<open>
  Handlers run in a thread pool, so calls of \<^verbatim>\<open>enqueue_transcription\<close> can be in
  flight together, each suspended between any two of its stretches, and every thread
  that line 89 starts runs \<^verbatim>\<open>_worker\<close>. \<open>epc\<close> is where a caller stands. In a
  \<open>cstate\<close>, \<open>shared\<close> holds the module's globals, \<open>holds\<close> has one entry for each
  worker thread started, the job that thread holds (its local variables
  \<^verbatim>\<open>video_id, filepath\<close>), and \<open>callers\<close> lists the calls begun so far. A worker runs
  a stretch of its loop with its own local variables in the place of \<open>worker_job\<close>.
\<close>

datatype epc = AtAppend | AtTestWorker | AtStart | AtPut | Enqueued

record cstate =
  shared :: tstate
  holds :: "job option list"
  callers :: "(epc \<times> job) list"


fun caller_step ::
  "epc \<times> job \<Rightarrow> tstate \<times> job option list \<Rightarrow> (epc \<times> job) \<times> tstate \<times> job option list" where
  "caller_step (AtAppend, (vid, path)) (s, ws) =
     ((AtTestWorker, (vid, path)), enqueue_append vid s, ws)"
| "caller_step (AtTestWorker, j) (s, ws) =
     ((if enqueue_test s then AtStart else AtPut, j), s, ws)"
| "caller_step (AtStart, j) (s, ws) = ((AtPut, j), enqueue_start s, ws @ [None])"
| "caller_step (AtPut, (vid, path)) (s, ws) =
     ((Enqueued, (vid, path)), enqueue_put vid path s, ws)"
| "caller_step (Enqueued, j) (s, ws) = ((Enqueued, j), s, ws)"

definition worker_stretch :: "(tstate \<Rightarrow> tstate) \<Rightarrow> nat \<Rightarrow> cstate \<Rightarrow> cstate" where
  "worker_stretch f w c =
     (if w < length (holds c)
      then (let s' = f ((shared c)\<lparr>worker_job := holds c ! w\<rparr>)
            in c\<lparr>shared := s'\<lparr>worker_job := None\<rparr>,
                 holds := (holds c)[w := worker_job s']\<rparr>)
      else c)"

text \<open>
  The events of a run: a handler begins a call; caller \<open>i\<close> runs its next stretch;
  worker \<open>w\<close> takes a job (when it holds none) or finishes the one it holds.
\<close>

datatype cevent =
    Call int string
  | Caller nat
  | WorkerTake nat real
  | WorkerFinish nat outcome

fun cstep :: "cstate \<Rightarrow> cevent \<Rightarrow> cstate" where
  "cstep c (Call vid path) = c\<lparr>callers := callers c @ [(AtAppend, (vid, path))]\<rparr>"
| "cstep c (Caller i) =
     (if i < length (callers c)
      then (case caller_step (callers c ! i) (shared c, holds c) of
              (p, s', ws') \<Rightarrow> c\<lparr>shared := s', holds := ws', callers := (callers c)[i := p]\<rparr>)
      else c)"
| "cstep c (WorkerTake w now) =
     worker_stretch (\<lambda>s. if worker_job s = None then worker_take now s else s) w c"
| "cstep c (WorkerFinish w oc) = worker_stretch (worker_finish oc) w c"

definition crun :: "cstate \<Rightarrow> cevent list \<Rightarrow> cstate" where
  "crun c evs = foldl cstep c evs"

text \<open>The jobs in the order their calls began.\<close>

fun csubmitted :: "cevent list \<Rightarrow> job list" where
  "csubmitted [] = []"
| "csubmitted (Call vid path # evs) = (vid, path) # csubmitted evs"
| "csubmitted (ev # evs) = csubmitted evs"



text \<open>
  The calls of a run do not overlap: whenever a call begins, every call before it has
  returned. The stretches of a call may still alternate with the workers' in any way.
\<close>

fun calls_in_turn :: "cstate \<Rightarrow> cevent list \<Rightarrow> bool" where
  "calls_in_turn c [] = True"
| "calls_in_turn c (Call vid path # evs) =
     (list_all (\<lambda>p. fst p = Enqueued) (callers c) \<and> calls_in_turn (cstep c (Call vid path)) evs)"
| "calls_in_turn c (ev # evs) = calls_in_turn (cstep c ev) evs"



subsection \<open>The recovery scan\<close>






subsection \<open>Callers of the engine singleton\<close>

text \<open>
  Nothing in \<^verbatim>\<open>get_model\<close> keeps two threads apart (the start-up thread of
  \<^verbatim>\<open>lifespan\<close> in \<^verbatim>\<open>app/main.py\<close> and the worker both call it), so a thread may be
  suspended between any two of its three stretches. \<open>pc\<close> is where a caller stands:
  before the test, before the load, before the \<^verbatim>\<open>return\<close>, or done with the engine it
  got or the exception it raised. A schedule names, step by step, the thread that runs
  next and what \<^verbatim>\<open>whisper.load_model\<close> does if that step is a load.
\<close>

datatype pc = AtTest | AtLoad | AtReturn | Returned "nat option" | Raised string

fun thread_step :: "string option \<Rightarrow> pc \<Rightarrow> tstate \<Rightarrow> pc \<times> tstate" where
  "thread_step ld AtTest s =
     (case get_model_test s of (True, s') \<Rightarrow> (AtLoad, s') | (False, s') \<Rightarrow> (AtReturn, s'))"
| "thread_step ld AtLoad s =
     (case get_model_load ld s of (Some e, s') \<Rightarrow> (Raised e, s') | (None, s') \<Rightarrow> (AtReturn, s'))"
| "thread_step ld AtReturn s = (Returned (get_model_return s), s)"
| "thread_step ld (Returned m) s = (Returned m, s)"
| "thread_step ld (Raised e) s = (Raised e, s)"

fun race_step :: "pc list \<times> tstate \<Rightarrow> nat \<times> string option \<Rightarrow> pc list \<times> tstate" where
  "race_step (pcs, s) (i, ld) =
     (if i < length pcs
      then (case thread_step ld (pcs ! i) s of (p, s') \<Rightarrow> (pcs[i := p], s'))
      else (pcs, s))"

definition race :: "pc list \<times> tstate \<Rightarrow> (nat \<times> string option) list \<Rightarrow> pc list \<times> tstate" where
  "race st schedule = foldl race_step st schedule"

text \<open>Calls of \<^verbatim>\<open>get_model\<close> one after another, each run to its end before the next.\<close>

fun calls :: "string option list \<Rightarrow> tstate \<Rightarrow> (string + nat option) list \<times> tstate" where
  "calls [] s = ([], s)"
| "calls (ld # lds) s =
     (case get_model ld s of (r, s1) \<Rightarrow> (case calls lds s1 of (rs, s2) \<Rightarrow> (r # rs, s2)))"

section \<open>The generative-AI service\<close>

text \<open>\<^verbatim>\<open>app/services/gemini_service.py\<close>.\<close>

subsection \<open>Strings\<close>

text \<open>
  The \<^verbatim>\<open>str\<close> methods the module uses. \<open>is_space\<close> is \<^verbatim>\<open>str.isspace\<close> on one character,
  for the characters a \<open>char\<close> holds (code points below 256); \<open>lower\<close> maps the letters
  A to Z, which is all the four search words below can tell apart.
\<close>

definition is_space :: "char \<Rightarrow> bool" where
  "is_space c =
     (let n = (of_char c :: nat)
      in (9 \<le> n \<and> n \<le> 13) \<or> (28 \<le> n \<and> n \<le> 32) \<or> n = 133 \<or> n = 160)"

definition strip :: "string \<Rightarrow> string" where
  "strip s = rev (dropWhile is_space (rev (dropWhile is_space s)))"

fun startswith :: "string \<Rightarrow> string \<Rightarrow> bool" where
  "startswith s [] = True"
| "startswith [] (p # ps) = False"
| "startswith (c # cs) (p # ps) = (c = p \<and> startswith cs ps)"

text \<open>\<^verbatim>\<open>s.split("\n")\<close> and \<^verbatim>\<open>"\n".join(lines)\<close>.\<close>

fun split_nl :: "string \<Rightarrow> string list" where
  "split_nl [] = [[]]"
| "split_nl (c # cs) =
     (if c = CHR 0x0A then [] # split_nl cs
      else (case split_nl cs of [] \<Rightarrow> [[c]] | l # ls \<Rightarrow> (c # l) # ls))"

fun join_nl :: "string list \<Rightarrow> string" where
  "join_nl [] = []"
| "join_nl [l] = l"
| "join_nl (l # ls) = l @ CHR 0x0A # join_nl ls"

definition lower_char :: "char \<Rightarrow> char" where
  "lower_char c =
     (case map_of (zip ''ABCDEFGHIJKLMNOPQRSTUVWXYZ'' ''abcdefghijklmnopqrstuvwxyz'') c of
        Some l \<Rightarrow> l
      | None \<Rightarrow> c)"

definition lower :: "string \<Rightarrow> string" where
  "lower s = map lower_char s"

text \<open>\<^verbatim>\<open>needle in hay\<close>\<close>

fun contains :: "string \<Rightarrow> string \<Rightarrow> bool" where
  "contains needle [] = (needle = [])"
| "contains needle (c # cs) = (startswith (c # cs) needle \<or> contains needle cs)"

subsection \<open>Parsing the response\<close>

text \<open>
  What \<^verbatim>\<open>json.loads\<close> returns. The decoder itself is Python's: it is a parameter
  \<open>loads\<close> of the functions below, and \<open>decoded\<close> is what a call of it does: it
  returns a value, raises \<^verbatim>\<open>json.JSONDecodeError\<close>, or raises another exception
  (\<^verbatim>\<open>RecursionError\<close> on a document nested too deep), given by its \<^verbatim>\<open>str\<close>.
\<close>

datatype json =
    JNull
  | JBool bool
  | JInt int
  | JFloat real
  | JString string
  | JArray "json list"
  | JObject "(string \<times> json) list"

datatype decoded = Decoded json | JSONDecodeError | OtherError string

text \<open>Lines 506 to 512 of \<^verbatim>\<open>_parse_response\<close>: the text that is handed to the decoder.\<close>

definition unfence :: "string \<Rightarrow> string" where
  "unfence text =
     (let cleaned = strip text
      in if startswith cleaned ''```''
         then (let lines = split_nl cleaned;
                   lines = drop 1 lines;
                   lines = (if lines \<noteq> [] \<and> strip (last lines) = ''```''
                            then butlast lines else lines)
               in join_nl lines)
         else cleaned)"

definition fallback :: "string \<Rightarrow> json" where
  "fallback cleaned =
     JObject [(''summary'', JString cleaned),
              (''effective_keywords'', JArray []),
              (''effective_phrases'', JArray []),
              (''correlation_insights'', JArray []),
              (''recommendations'', JArray []),
              (''funnel_suggestions'', JArray [])]"

text \<open>\<^verbatim>\<open>str\<close> of the \<^verbatim>\<open>AttributeError\<close> that \<^verbatim>\<open>text.strip()\<close> raises when \<^verbatim>\<open>text\<close> is \<^verbatim>\<open>None\<close>.\<close>

definition none_has_no_strip :: string where
  "none_has_no_strip =
     CHR 0x27 # ''NoneType'' @ CHR 0x27 # '' object has no attribute '' @ CHR 0x27 # ''strip''
       @ [CHR 0x27]"

text \<open>
  \<^verbatim>\<open>_parse_response\<close>, called with \<^verbatim>\<open>response.text\<close>, which is a string or \<^verbatim>\<open>None\<close>. The
  result is \<open>Inr\<close> the value returned or \<open>Inl\<close> the \<^verbatim>\<open>str\<close> of the exception that
  leaves the function: only \<^verbatim>\<open>json.JSONDecodeError\<close> is caught (line 516).
\<close>

definition parse_response :: "(string \<Rightarrow> decoded) \<Rightarrow> string option \<Rightarrow> string + json" where
  "parse_response loads response_text =
     (case response_text of
        None \<Rightarrow> Inl none_has_no_strip
      | Some text \<Rightarrow>
          (let cleaned = unfence text
           in case loads cleaned of
                Decoded j \<Rightarrow> Inr j
              | JSONDecodeError \<Rightarrow> Inr (fallback cleaned)
              | OtherError e \<Rightarrow> Inl e))"

subsection \<open>Key rotation and retry\<close>

text \<open>
  The exceptions that leave the module. The three \<^verbatim>\<open>RuntimeError\<close>s it raises itself
  differ in their message only, and \<open>rt_msg\<close> names the message: line 47 (no key
  configured), line 33 (\<^verbatim>\<open>_next_key\<close> on an empty list) and line 74, whose text ends in
  \<^verbatim>\<open>str\<close> of the last error. \<open>Reraised e\<close> is an exception raised inside the \<^verbatim>\<open>try\<close>
  block, by the client library or by \<^verbatim>\<open>_parse_response\<close>, and raised again by line 72;
  \<open>e\<close> is its \<^verbatim>\<open>str\<close>.
\<close>

datatype rt_msg = NoKeysConfigured | NoKeysToRotate | AllKeysRateLimited string

datatype exn = RuntimeError rt_msg | Reraised string

text \<open>
  \<open>key_index\<close> is the global \<^verbatim>\<open>_key_index\<close>; \<open>requests\<close> is the service's side of the
  wire: the key of every \<^verbatim>\<open>generate_content\<close> call made so far, oldest first.
\<close>

record gstate =
  key_index :: nat
  requests :: "string list"

definition next_key :: "string list \<Rightarrow> gstate \<Rightarrow> exn + (string \<times> gstate)" where
  "next_key keys s =
     (if keys = [] then Inl (RuntimeError NoKeysToRotate)
      else Inr (keys ! (key_index s mod length keys), s\<lparr>key_index := key_index s + 1\<rparr>))"

definition is_rate_limit :: "string \<Rightarrow> bool" where
  "is_rate_limit e =
     (let err_str = lower e
      in contains ''429'' err_str \<or> contains ''quota'' err_str \<or> contains ''rate'' err_str
         \<or> contains ''resource_exhausted'' err_str)"

text \<open>\<^verbatim>\<open>f"{last_error}"\<close>\<close>

definition format_error :: "string option \<Rightarrow> string" where
  "format_error last_error = (case last_error of None \<Rightarrow> ''None'' | Some e \<Rightarrow> e)"

text \<open>
  The body of the \<^verbatim>\<open>try\<close> block (lines 55 to 63): \<open>call attempt key\<close> is what
  \<^verbatim>\<open>generate_content\<close> does on that attempt with that key (for the model and prompt
  of this dispatch), \<open>Inr\<close> the \<^verbatim>\<open>text\<close> of the response or \<open>Inl\<close> the \<^verbatim>\<open>str\<close> of the
  exception; the text goes to \<^verbatim>\<open>_parse_response\<close>, whose exceptions are raised inside
  the block too.
\<close>

definition try_key ::
  "(nat \<Rightarrow> string \<Rightarrow> string + string option) \<Rightarrow> (string \<Rightarrow> decoded) \<Rightarrow> nat \<Rightarrow> string \<Rightarrow>
   string + json" where
  "try_key call loads attempt key =
     (case call attempt key of
        Inl e \<Rightarrow> Inl e
      | Inr response_text \<Rightarrow> parse_response loads response_text)"

text \<open>The loop of lines 52 to 74 over the attempt numbers still to run.\<close>

fun attempts ::
  "(nat \<Rightarrow> string \<Rightarrow> string + string option) \<Rightarrow> (string \<Rightarrow> decoded) \<Rightarrow> string list \<Rightarrow>
   nat list \<Rightarrow> string option \<Rightarrow> gstate \<Rightarrow> (exn + json) \<times> gstate" where
  "attempts call loads keys [] last_error s =
     (Inl (RuntimeError (AllKeysRateLimited (format_error last_error))), s)"
| "attempts call loads keys (attempt # rest) last_error s =
     (case next_key keys s of
        Inl x \<Rightarrow> (Inl x, s)
      | Inr (key, s1) \<Rightarrow>
          (let s2 = s1\<lparr>requests := requests s1 @ [key]\<rparr>
           in case try_key call loads attempt key of
                Inr j \<Rightarrow> (Inr j, s2)
              | Inl e \<Rightarrow>
                  if is_rate_limit e then attempts call loads keys rest (Some e) s2
                  else (Inl (Reraised e), s2)))"

text \<open>\<^verbatim>\<open>analyze_cm_effectiveness\<close>, with the key pool as \<^verbatim>\<open>_get_keys_and_model\<close> loaded it.\<close>

definition analyze_cm_effectiveness ::
  "(nat \<Rightarrow> string \<Rightarrow> string + string option) \<Rightarrow> (string \<Rightarrow> decoded) \<Rightarrow> string list \<Rightarrow>
   gstate \<Rightarrow> (exn + json) \<times> gstate" where
  "analyze_cm_effectiveness call loads keys s =
     (if keys = [] then (Inl (RuntimeError NoKeysConfigured), s)
      else attempts call loads keys [0..<length keys] None s)"

section \<open>Sample data\<close>

definition sample_cfg :: settings where
  "sample_cfg = \<lparr>WHISPER_MODEL = ''large-v3'', WHISPER_LANGUAGE = ''ja''\<rparr>"

definition sample_video :: "int \<Rightarrow> string \<Rightarrow> string \<Rightarrow> video" where
  "sample_video i path st =
     \<lparr>v_id = i, v_filename = ''cm.mp4'', v_filepath = path, v_status = st,
      v_error_message = None\<rparr>"

definition sample_db :: database where
  "sample_db =
     \<lparr>videos = [sample_video 1 ''/uploads/1.mp4'' ''transcribing'',
                sample_video 2 ''/uploads/2.mp4'' ''uploaded'',
                sample_video 3 ''/uploads/3.mp4'' ''transcribed''],
      transcriptions = [], transcription_segments = []\<rparr>"

definition sample_result :: whisper_result where
  "sample_result =
     \<lparr>r_text = ''konnichiwa'', r_language = None,
      r_segments = Some [\<lparr>seg_start = 0, seg_end = 2, seg_text = ''konnichiwa''\<rparr>]\<rparr>"

text \<open>A job during which every call succeeds, and one during which the engine raises.\<close>

definition sample_ok :: outcome where
  "sample_ok =
     \<lparr>o_query = None, o_commit_transcribing = None, o_load_model = None,
      o_transcribe = Inr sample_result, o_elapsed = 3, o_new_id = 1, o_flush = None,
      o_commit_transcribed = None, o_mark_error = None\<rparr>"




definition sample_orphan :: tstate where
  "sample_orphan =
     run (initial sample_cfg sample_db)
       [Enqueue 9 ''/uploads/9.mp4'', Take 10, Enqueue 2 ''/uploads/2.mp4'']"


text \<open>
  A decoder that knows three documents, with JSON's white space around them. A text
  that opens a thousand arrays or more one inside the other exhausts the interpreter's
  recursion limit (1000 unless raised) before the decoder has seen its end: what leaves
  \<^verbatim>\<open>json.loads\<close> then is a \<^verbatim>\<open>RecursionError\<close>, which is not a \<^verbatim>\<open>JSONDecodeError\<close>.
\<close>

definition json_ws :: "char \<Rightarrow> bool" where
  "json_ws c = (c = CHR '' '' \<or> c = CHR 0x09 \<or> c = CHR 0x0A \<or> c = CHR 0x0D)"

definition sample_loads :: "string \<Rightarrow> decoded" where
  "sample_loads t =
     (let u = rev (dropWhile json_ws (rev (dropWhile json_ws t)))
      in if u = ''{}'' then Decoded (JObject [])
         else if u = ''[]'' then Decoded (JArray [])
         else if u = ''null'' then Decoded JNull
         else if 1000 \<le> length (takeWhile (\<lambda>c. c = CHR ''['') u)
         then OtherError
           ''maximum recursion depth exceeded while decoding a JSON array from a unicode string''
         else JSONDecodeError)"

text \<open>A service that turns the first two keys away and answers the third.\<close>

definition sample_call :: "nat \<Rightarrow> string \<Rightarrow> string + string option" where
  "sample_call attempt key =
     (if key = ''key-c'' then Inr (Some ''{}'')
      else Inl ''429 RESOURCE_EXHAUSTED'')"

definition sample_call_limited :: "nat \<Rightarrow> string \<Rightarrow> string + string option" where
  "sample_call_limited attempt key = Inl ''Quota exceeded''"




section \<open>Properties\<close>

subsection \<open>Queue position\<close>

lemma index_of_None: "index_of x xs = None \<longleftrightarrow> x \<notin> set xs"
  by (induction xs) (auto split: option.splits)

lemma index_of_Some:
  "index_of x xs = Some i \<longleftrightarrow> i < length xs \<and> xs ! i = x \<and> x \<notin> set (take i xs)"
proof (induction xs arbitrary: i)
  case Nil
  then show ?case by simp
next
  case (Cons y ys)
  show ?case
  proof (cases "y = x")
    case True
    then show ?thesis by (cases i) auto
  next
    case False
    show ?thesis
    proof (cases i)
      case 0
      with False show ?thesis by (simp split: option.splits)
    next
      case (Suc j)
      with False Cons.IH [of j] show ?thesis
        by (cases "index_of x ys") simp_all
    qed
  qed
qed

text \<open>
  C8. \<open>get_video_queue_position\<close> answers 0 for the job being processed; for a job that
  is not being processed but is in the pending list it answers the 1-based index of its
  first entry there, so 1 for the job at the head of the list; for a job that is
  neither, it answers \<open>None\<close>.
\<close>

theorem get_video_queue_position_spec:
  "(current_video_id s = Some vid \<longrightarrow> get_video_queue_position vid s = Some 0)
   \<and> (current_video_id s \<noteq> Some vid \<and> vid \<in> set (queue_video_ids s) \<longrightarrow>
        (\<exists>i < length (queue_video_ids s).
           get_video_queue_position vid s = Some (int i + 1)
           \<and> queue_video_ids s ! i = vid
           \<and> vid \<notin> set (take i (queue_video_ids s))))
   \<and> (current_video_id s \<noteq> Some vid \<and> queue_video_ids s = vid # rest \<longrightarrow>
        get_video_queue_position vid s = Some 1)
   \<and> (current_video_id s \<noteq> Some vid \<and> vid \<notin> set (queue_video_ids s) \<longrightarrow>
        get_video_queue_position vid s = None)"
proof (intro conjI impI)
  assume "current_video_id s = Some vid"
  then show "get_video_queue_position vid s = Some 0"
    by (simp add: get_video_queue_position_def)
next
  assume a: "current_video_id s \<noteq> Some vid \<and> vid \<in> set (queue_video_ids s)"
  then obtain i where i: "index_of vid (queue_video_ids s) = Some i"
    using index_of_None [of vid "queue_video_ids s"] by (cases "index_of vid (queue_video_ids s)") auto
  with a have "get_video_queue_position vid s = Some (int i + 1)"
    by (simp add: get_video_queue_position_def)
  with i show "\<exists>i < length (queue_video_ids s).
           get_video_queue_position vid s = Some (int i + 1)
           \<and> queue_video_ids s ! i = vid
           \<and> vid \<notin> set (take i (queue_video_ids s))"
    using index_of_Some [of vid "queue_video_ids s" i] by blast
next
  assume "current_video_id s \<noteq> Some vid \<and> queue_video_ids s = vid # rest"
  then show "get_video_queue_position vid s = Some 1"
    by (simp add: get_video_queue_position_def)
next
  assume a: "current_video_id s \<noteq> Some vid \<and> vid \<notin> set (queue_video_ids s)"
  then have "index_of vid (queue_video_ids s) = None"
    by (simp add: index_of_None)
  with a show "get_video_queue_position vid s = None"
    by (simp add: get_video_queue_position_def)
qed

theorem get_video_queue_position_spec_witness:
  "get_video_queue_position 7
     ((initial sample_cfg sample_db)\<lparr>current_video_id := Some 7, queue_video_ids := [8, 9]\<rparr>) = Some 0
   \<and> get_video_queue_position 8
     ((initial sample_cfg sample_db)\<lparr>current_video_id := Some 7, queue_video_ids := [8, 9]\<rparr>) = Some 1
   \<and> get_video_queue_position 10
     ((initial sample_cfg sample_db)\<lparr>current_video_id := Some 7, queue_video_ids := [8, 9]\<rparr>) = None"
proof -
  let ?s = "(initial sample_cfg sample_db)\<lparr>current_video_id := Some 7, queue_video_ids := [8, 9]\<rparr>"
  have cur: "current_video_id ?s = Some 7" by simp
  have q: "queue_video_ids ?s = [8, 9]" by simp
  have a: "get_video_queue_position 7 ?s = Some 0"
    using get_video_queue_position_spec [of ?s 7 "[]"] cur by blast
  have "current_video_id ?s \<noteq> Some 8 \<and> queue_video_ids ?s = 8 # [9]" by simp
  then have b: "get_video_queue_position 8 ?s = Some 1"
    using get_video_queue_position_spec [of ?s 8 "[9]"] by blast
  have "current_video_id ?s \<noteq> Some 10 \<and> 10 \<notin> set (queue_video_ids ?s)" by simp
  then have c: "get_video_queue_position 10 ?s = None"
    using get_video_queue_position_spec [of ?s 10 "[]"] by blast
  from a b c show ?thesis by blast
qed


subsection \<open>The queue and the worker loop\<close>

lemma enqueue_transcription_eq:
  "enqueue_transcription vid path s =
     s\<lparr>queue_video_ids := queue_video_ids s @ [vid],
       worker_thread := True,
       task_queue := task_queue s @ [(vid, path)]\<rparr>"
  by (cases s)
    (auto simp: enqueue_transcription_def enqueue_append_def enqueue_test_def
      enqueue_start_def enqueue_put_def Let_def)






lemma run_snoc: "run s (evs @ [e]) = step (run s evs) e"
  by (simp add: run_def)

lemma run_append: "run s (evs @ evs') = run (run s evs) evs'"
  by (simp add: run_def)






subsection \<open>Calls and workers side by side\<close>













lemma csubmitted_append: "csubmitted (evs @ evs') = csubmitted evs @ csubmitted evs'"
  by (induction evs rule: csubmitted.induct) simp_all

lemma crun_append: "crun c (evs @ evs') = crun (crun c evs) evs'"
  by (simp add: crun_def)




lemma calls_in_turn_append:
  "calls_in_turn c (evs @ evs') \<longleftrightarrow> calls_in_turn c evs \<and> calls_in_turn (crun c evs) evs'"
  by (induction c evs rule: calls_in_turn.induct) (simp_all add: crun_def)










subsection \<open>Rows\<close>



lemma update_video_absent:
  assumes "find_video vid d = None"
  shows "update_video vid f d = d"
proof -
  from assms have "\<forall>v \<in> set (videos d). v_id v \<noteq> vid"
    by (simp add: find_video_def find_None_iff)
  then have "map (\<lambda>v. if v_id v = vid then f v else v) (videos d) = videos d"
    by (induction "videos d") (auto simp: map_idI)
  then show ?thesis by (simp add: update_video_def)
qed


subsection \<open>A job with no entity\<close>

lemma transcribe_video_absent:
  assumes "find_video vid (db s) = None"
  shows "snd (transcribe_video oc vid path s) = s"
    and "fst (transcribe_video oc vid path s) = o_query oc"
  using assms by (simp_all add: transcribe_video_def split: option.splits)

lemma mark_error_absent:
  assumes "find_video vid (db s) = None"
  shows "mark_error f vid e s = s"
  using assms by (simp add: mark_error_def Let_def split: option.splits)

text \<open>
  C10. When the worker holds a job whose id matches no row of the video table, finishing
  the job leaves the database as it was (no status, no error message, no transcription
  row), whatever the collaborators do; \<^verbatim>\<open>_transcribe_video\<close> returns without raising
  when its query does not raise; the current-job fields are cleared, the worker thread
  lives on, and its next turn takes the job at the head of the queue.
\<close>

theorem job_without_entity:
  assumes "worker_thread s" and "worker_job s = Some (vid, path)"
    and "find_video vid (db s) = None"
  shows "db (step s (Finish oc)) = db s
       \<and> (o_query oc = None \<longrightarrow> fst (transcribe_video oc vid path s) = None)
       \<and> current_video_id (step s (Finish oc)) = None
       \<and> current_step (step s (Finish oc)) = []
       \<and> current_start_time (step s (Finish oc)) = None
       \<and> worker_thread (step s (Finish oc))
       \<and> worker_job (step s (Finish oc)) = None
       \<and> task_queue (step s (Finish oc)) = task_queue s
       \<and> (\<forall>j rest. task_queue s = j # rest \<longrightarrow>
             worker_job (step (step s (Finish oc)) (Take now)) = Some j
           \<and> task_queue (step (step s (Finish oc)) (Take now)) = rest)"
proof -
  obtain r where r: "transcribe_video oc vid path s = (r, s)"
    using transcribe_video_absent(1) [OF assms(3), of oc path]
    by (cases "transcribe_video oc vid path s") simp
  have f: "worker_finish oc s =
      s\<lparr>current_video_id := None, current_step := [], current_start_time := None,
        worker_job := None, history := history s @ [Finished (vid, path)]\<rparr>"
    using assms r mark_error_absent [OF assms(3)]
    by (cases r) (simp_all add: worker_finish_def)
  have q: "fst (transcribe_video oc vid path s) = o_query oc"
    by (rule transcribe_video_absent(2) [OF assms(3)])
  show ?thesis
    using assms(1) q by (auto simp: f worker_take_def)
qed


subsection \<open>A job that raises\<close>























lemma sample_db_rows:
  "find_video 1 sample_db = Some (sample_video 1 ''/uploads/1.mp4'' ''transcribing'')"
  "find_video 2 sample_db = Some (sample_video 2 ''/uploads/2.mp4'' ''uploaded'')"
  "find_video 9 sample_db = None"
  by (simp_all add: find_video_def sample_db_def sample_video_def)




lemma sample_orphan_fields:
  "worker_thread sample_orphan" "worker_job sample_orphan = Some (9, ''/uploads/9.mp4'')"
  "task_queue sample_orphan = [(2, ''/uploads/2.mp4'')]" "db sample_orphan = sample_db"
  by (simp_all add: sample_orphan_def run_def initial_def enqueue_transcription_eq
      worker_take_def)

theorem job_without_entity_witness:
  "db (step sample_orphan (Finish sample_ok)) = sample_db
   \<and> fst (transcribe_video sample_ok 9 ''/uploads/9.mp4'' sample_orphan) = None
   \<and> current_video_id (step sample_orphan (Finish sample_ok)) = None
   \<and> worker_job (step (step sample_orphan (Finish sample_ok)) (Take 20))
       = Some (2, ''/uploads/2.mp4'')"
proof -
  have q: "o_query sample_ok = None" by (simp add: sample_ok_def)
  from job_without_entity [OF sample_orphan_fields(1,2)
      sample_db_rows(3) [folded sample_orphan_fields(4)], of sample_ok 20]
    q sample_orphan_fields(3,4)
  show ?thesis by (simp del: step.simps)
qed


subsection \<open>The recovery scan\<close>












subsection \<open>Key rotation and retry\<close>

lemma attempts_rate_limited:
  assumes "keys \<noteq> []"
    and "call attempt (keys ! (key_index s mod length keys)) = Inl e"
    and "is_rate_limit e"
  shows "attempts call loads keys (attempt # rest) last_error s
           = attempts call loads keys rest (Some e)
               (s\<lparr>key_index := key_index s + 1,
                  requests := requests s @ [keys ! (key_index s mod length keys)]\<rparr>)"
  using assms by (simp add: next_key_def try_key_def)


lemma attempts_all_limited:
  assumes "keys \<noteq> []"
    and "\<forall>j < length xs. \<exists>e. call (xs ! j) (keys ! ((key_index s + j) mod length keys)) = Inl e
           \<and> is_rate_limit e"
  shows "\<exists>m. attempts call loads keys xs last_error s
           = (Inl (RuntimeError (AllKeysRateLimited m)),
              s\<lparr>key_index := key_index s + length xs,
                requests := requests s
                  @ map (\<lambda>j. keys ! ((key_index s + j) mod length keys)) [0..<length xs]\<rparr>)
         \<and> (if xs = [] then m = format_error last_error
             else call (last xs) (keys ! ((key_index s + (length xs - 1)) mod length keys))
                    = Inl m)"
  using assms(2)
proof (induction xs arbitrary: s last_error)
  case Nil
  show ?case by simp
next
  case (Cons x xs)
  from Cons.prems [rule_format, of 0] obtain e
    where e: "call x (keys ! (key_index s mod length keys)) = Inl e" "is_rate_limit e"
    by auto
  let ?s1 = "s\<lparr>key_index := key_index s + 1,
               requests := requests s @ [keys ! (key_index s mod length keys)]\<rparr>"
  have step: "attempts call loads keys (x # xs) last_error s
      = attempts call loads keys xs (Some e) ?s1"
    using attempts_rate_limited [where call = call and attempt = x and keys = keys
        and s = s and e = e] assms(1) e by simp
  have "\<forall>j < length xs. \<exists>e. call (xs ! j) (keys ! ((key_index ?s1 + j) mod length keys)) = Inl e
           \<and> is_rate_limit e"
  proof (intro allI impI)
    fix j assume "j < length xs"
    with Cons.prems [rule_format, of "Suc j"] show "\<exists>e. call (xs ! j)
        (keys ! ((key_index ?s1 + j) mod length keys)) = Inl e \<and> is_rate_limit e"
      by simp
  qed
  from Cons.IH [OF this, of "Some e"] obtain m where
    m: "attempts call loads keys xs (Some e) ?s1
           = (Inl (RuntimeError (AllKeysRateLimited m)),
              ?s1\<lparr>key_index := key_index ?s1 + length xs,
                requests := requests ?s1
                  @ map (\<lambda>j. keys ! ((key_index ?s1 + j) mod length keys)) [0..<length xs]\<rparr>)"
    and l: "if xs = [] then m = format_error (Some e)
             else call (last xs) (keys ! ((key_index ?s1 + (length xs - 1)) mod length keys))
                    = Inl m"
    by blast
  have r: "map (\<lambda>j. keys ! ((key_index s + j) mod length keys)) [0..<length (x # xs)]
      = keys ! (key_index s mod length keys)
        # map (\<lambda>j. keys ! ((key_index ?s1 + j) mod length keys)) [0..<length xs]"
    by (simp add: upt_conv_Cons map_Suc_upt [symmetric] del: upt_Suc)
  have "attempts call loads keys (x # xs) last_error s
           = (Inl (RuntimeError (AllKeysRateLimited m)),
              s\<lparr>key_index := key_index s + length (x # xs),
                requests := requests s
                  @ map (\<lambda>j. keys ! ((key_index s + j) mod length keys)) [0..<length (x # xs)]\<rparr>)"
    unfolding step m r by simp
  moreover have "call (last (x # xs))
      (keys ! ((key_index s + (length (x # xs) - 1)) mod length keys)) = Inl m"
  proof (cases "xs = []")
    case True
    with l e show ?thesis by (simp add: format_error_def)
  next
    case False
    then have "0 < length xs" by simp
    then have "Suc (key_index s + (length xs - Suc 0)) = key_index s + length xs"
      by arith
    with l False show ?thesis by simp
  qed
  ultimately show ?case by auto
qed


lemma attempts_not_configuration:
  assumes "keys \<noteq> []"
  shows "fst (attempts call loads keys xs last_error s) \<noteq> Inl (RuntimeError NoKeysConfigured)"
  using assms
  by (induction xs arbitrary: last_error s)
    (auto simp: next_key_def try_key_def Let_def split: sum.splits)



text \<open>
  C4. With a pool of \<open>N > 0\<close> keys, when every call is turned away with an error
  classified as a rate limit, the dispatch makes exactly \<open>N\<close> calls, one per
  consecutive position of the rotation, and raises the \<^verbatim>\<open>RuntimeError\<close> of line 74, whose
  message carries the text of the error of the last call.
\<close>

theorem all_keys_rate_limited:
  assumes "keys \<noteq> []"
    and "\<forall>j < length keys. \<exists>e.
           call j (keys ! ((key_index s + j) mod length keys)) = Inl e \<and> is_rate_limit e"
  shows "\<exists>m. analyze_cm_effectiveness call loads keys s
           = (Inl (RuntimeError (AllKeysRateLimited m)),
              s\<lparr>key_index := key_index s + length keys,
                requests := requests s
                  @ map (\<lambda>j. keys ! ((key_index s + j) mod length keys)) [0..<length keys]\<rparr>)
         \<and> call (length keys - 1) (keys ! ((key_index s + (length keys - 1)) mod length keys))
             = Inl m
         \<and> length (requests (snd (analyze_cm_effectiveness call loads keys s)))
             = length (requests s) + length keys"
proof -
  let ?xs = "[0..<length keys]"
  from assms(1) have n: "0 < length keys" by simp
  have ne: "?xs \<noteq> []" using n by simp
  have l: "last ?xs = length keys - 1" using n by (cases "length keys") simp_all
  have "\<forall>j < length ?xs. \<exists>e.
           call (?xs ! j) (keys ! ((key_index s + j) mod length keys)) = Inl e \<and> is_rate_limit e"
    using assms(2) by simp
  from attempts_all_limited [OF assms(1) this, of loads None] ne l
  obtain m where m: "attempts call loads keys ?xs None s
           = (Inl (RuntimeError (AllKeysRateLimited m)),
              s\<lparr>key_index := key_index s + length keys,
                requests := requests s
                  @ map (\<lambda>j. keys ! ((key_index s + j) mod length keys)) [0..<length keys]\<rparr>)"
    and "call (length keys - 1) (keys ! ((key_index s + (length keys - 1)) mod length keys))
             = Inl m"
    by auto
  with assms(1) show ?thesis
    by (intro exI [of _ m]) (simp add: analyze_cm_effectiveness_def)
qed

theorem all_keys_rate_limited_witness:
  "analyze_cm_effectiveness sample_call_limited sample_loads [''key-a'', ''key-b'']
       \<lparr>key_index = 1, requests = []\<rparr>
     = (Inl (RuntimeError (AllKeysRateLimited ''Quota exceeded'')),
        \<lparr>key_index = 3, requests = [''key-b'', ''key-a'']\<rparr>)"
proof -
  let ?keys = "[''key-a'', ''key-b'']"
  let ?s = "\<lparr>key_index = 1, requests = []\<rparr>"
  have rl: "is_rate_limit ''Quota exceeded''"
    by (simp add: is_rate_limit_def lower_def lower_char_def)
  have ne: "?keys \<noteq> []" by simp
  have h: "\<forall>j < length ?keys. \<exists>e.
      sample_call_limited j (?keys ! ((key_index ?s + j) mod length ?keys)) = Inl e
      \<and> is_rate_limit e"
    using rl by (simp add: sample_call_limited_def)
  from all_keys_rate_limited [where call = sample_call_limited and keys = "?keys"
      and s = "?s" and loads = sample_loads, OF ne h] obtain m
    where m: "analyze_cm_effectiveness sample_call_limited sample_loads ?keys ?s
           = (Inl (RuntimeError (AllKeysRateLimited m)),
              ?s\<lparr>key_index := key_index ?s + length ?keys,
                requests := requests ?s
                  @ map (\<lambda>j. ?keys ! ((key_index ?s + j) mod length ?keys))
                      [0..<length ?keys]\<rparr>)"
      and "sample_call_limited (length ?keys - 1)
             (?keys ! ((key_index ?s + (length ?keys - 1)) mod length ?keys)) = Inl m"
    by blast
  then have "m = ''Quota exceeded''" by (simp add: sample_call_limited_def)
  with m show ?thesis by (simp add: upt_rec)
qed

text \<open>
  C5. With an empty pool the dispatch raises the \<^verbatim>\<open>RuntimeError\<close> of line 47 at once:
  no call is made and no key is drawn from the rotation, so nothing is tried again. That
  outcome is never the one of line 74, and it arises for the empty pool only.
\<close>

theorem no_keys_configured:
  "analyze_cm_effectiveness call loads [] s = (Inl (RuntimeError NoKeysConfigured), s)
   \<and> requests (snd (analyze_cm_effectiveness call loads [] s)) = requests s
   \<and> key_index (snd (analyze_cm_effectiveness call loads [] s)) = key_index s
   \<and> (\<forall>m. fst (analyze_cm_effectiveness call loads [] s)
            \<noteq> Inl (RuntimeError (AllKeysRateLimited m)))
   \<and> (fst (analyze_cm_effectiveness call loads keys s) = Inl (RuntimeError NoKeysConfigured)
        \<longleftrightarrow> keys = [])"
proof -
  have "fst (analyze_cm_effectiveness call loads keys s) = Inl (RuntimeError NoKeysConfigured)
        \<longleftrightarrow> keys = []"
    using attempts_not_configuration [of keys call loads "[0..<length keys]" None s]
    by (auto simp: analyze_cm_effectiveness_def)
  then show ?thesis
    by (simp add: analyze_cm_effectiveness_def)
qed

theorem no_keys_configured_witness:
  "analyze_cm_effectiveness sample_call sample_loads [] \<lparr>key_index = 4, requests = []\<rparr>
     = (Inl (RuntimeError NoKeysConfigured), \<lparr>key_index = 4, requests = []\<rparr>)
   \<and> fst (analyze_cm_effectiveness sample_call_limited sample_loads [''key-a'']
        \<lparr>key_index = 4, requests = []\<rparr>) \<noteq> Inl (RuntimeError NoKeysConfigured)"
  using no_keys_configured [of sample_call sample_loads "\<lparr>key_index = 4, requests = []\<rparr>" "[]"]
    no_keys_configured [of sample_call_limited sample_loads "\<lparr>key_index = 4, requests = []\<rparr>"
      "[''key-a'']"]
  by blast

subsection \<open>Parsing the response\<close>
















subsection \<open>The engine singleton\<close>

text \<open>A caller that runs its three steps undisturbed does what \<open>get_model\<close> does.\<close>

lemma thread_alone:
  "(case thread_step ld AtTest s of (p1, s1) \<Rightarrow>
      (case thread_step ld p1 s1 of (p2, s2) \<Rightarrow> thread_step ld p2 s2))
     = (case get_model ld s of
          (Inl e, s') \<Rightarrow> (Raised e, s')
        | (Inr m, s') \<Rightarrow> (Returned m, s'))"
  by (cases ld; cases "model s")
    (simp_all add: get_model_def get_model_test_def get_model_load_def get_model_return_def)

lemma get_model_stored:
  assumes "model s = Some m"
  shows "get_model ld s = (Inr (Some m), s)"
  using assms by (simp add: get_model_def get_model_test_def get_model_return_def)

lemma get_model_first:
  assumes "model s = None"
  shows "get_model None s
           = (Inr (Some (Suc (constructions s))),
              s\<lparr>model_loading := False, model := Some (Suc (constructions s)),
                constructions := Suc (constructions s)\<rparr>)"
    and "get_model (Some e) s = (Inl e, s\<lparr>model_loading := True\<rparr>)"
  using assms
  by (simp_all add: get_model_def get_model_test_def get_model_load_def get_model_return_def)

lemma calls_stored:
  assumes "model s = Some m"
  shows "calls lds s = (replicate (length lds) (Inr (Some m)), s)"
  using assms by (induction lds) (simp_all add: get_model_stored)

lemma calls_from_none:
  assumes "model s = None" and "constructions s = 0"
  shows "constructions (snd (calls lds s)) = (if None \<in> set lds then 1 else 0)
       \<and> model (snd (calls lds s)) = (if None \<in> set lds then Some 1 else None)
       \<and> length (fst (calls lds s)) = length lds
       \<and> (\<forall>i < length lds.
             fst (calls lds s) ! i
               = (if None \<in> set (take (Suc i) lds) then Inr (Some 1)
                  else (case lds ! i of Some e \<Rightarrow> Inl e | None \<Rightarrow> Inr None)))"
  using assms
proof (induction lds arbitrary: s)
  case Nil
  then show ?case by simp
next
  case (Cons ld lds)
  show ?case
  proof (cases ld)
    case None
    let ?s1 = "s\<lparr>model_loading := False, model := Some (Suc (constructions s)),
                constructions := Suc (constructions s)\<rparr>"
    have g: "get_model ld s = (Inr (Some 1), ?s1)"
      using get_model_first(1) [OF Cons.prems(1)] None Cons.prems(2) by simp
    have c: "calls lds ?s1 = (replicate (length lds) (Inr (Some 1)), ?s1)"
      using calls_stored [of ?s1 1 lds] Cons.prems(2) by simp
    have "(Inr (Some (Suc 0)) # replicate (length lds) (Inr (Some (Suc 0)))) ! i
        = (Inr (Some (Suc 0)) :: string + nat option)"
      if "i < Suc (length lds)" for i
      using that by (cases i) simp_all
    with g c None Cons.prems(2) show ?thesis by simp
  next
    case (Some e)
    let ?s1 = "s\<lparr>model_loading := True\<rparr>"
    have g: "get_model ld s = (Inl e, ?s1)"
      using get_model_first(2) [OF Cons.prems(1)] Some by simp
    have "model ?s1 = None" "constructions ?s1 = 0"
      using Cons.prems by simp_all
    note ih = Cons.IH [OF this]
    obtain rs s2 where r: "calls lds ?s1 = (rs, s2)" by (cases "calls lds ?s1")
    have all: "(Inl e # rs) ! i
        = (if None \<in> set (take (Suc i) (ld # lds)) then Inr (Some 1)
           else (case (ld # lds) ! i of Some e \<Rightarrow> Inl e | None \<Rightarrow> Inr None))"
      if "i < length (ld # lds)" for i
    proof (cases i)
      case 0
      with Some show ?thesis by simp
    next
      case (Suc k)
      with that have "k < length lds" by simp
      with ih r have "rs ! k = (if None \<in> set (take (Suc k) lds) then Inr (Some 1)
           else (case lds ! k of Some e \<Rightarrow> Inl e | None \<Rightarrow> Inr None))"
        by simp
      with Suc Some show ?thesis by simp
    qed
    from ih r g Some all show ?thesis by simp
  qed
qed


text \<open>
  C9, amended. The engine is constructed by the first call of \<open>get_model\<close> that finds
  none stored, and kept. For calls made one after another from process start, each
  returning before the next begins: at most one construction takes place (exactly one if
  some load succeeds), every call from the first successful load on returns that one
  instance, and a call before it raises what its load raised and leaves the next call to
  try again.
\<close>

theorem singleton_without_overlap:
  "constructions (snd (calls lds (initial c d))) \<le> 1
   \<and> constructions (snd (calls lds (initial c d))) = (if None \<in> set lds then 1 else 0)
   \<and> length (fst (calls lds (initial c d))) = length lds
   \<and> (\<forall>i < length lds.
         (None \<in> set (take (Suc i) lds) \<longrightarrow>
            fst (calls lds (initial c d)) ! i = Inr (Some 1))
       \<and> (\<forall>e. None \<notin> set (take (Suc i) lds) \<and> lds ! i = Some e \<longrightarrow>
            fst (calls lds (initial c d)) ! i = Inl e))"
proof -
  have "model (initial c d) = None" "constructions (initial c d) = 0"
    by (simp_all add: initial_def)
  from calls_from_none [OF this, of lds] show ?thesis
    by auto
qed

theorem singleton_without_overlap_witness:
  "constructions (snd (calls [Some ''out of memory'', None, None]
       (initial sample_cfg sample_db))) = 1
   \<and> fst (calls [Some ''out of memory'', None, None] (initial sample_cfg sample_db)) ! 0
       = Inl ''out of memory''
   \<and> fst (calls [Some ''out of memory'', None, None] (initial sample_cfg sample_db)) ! 1
       = Inr (Some 1)
   \<and> fst (calls [Some ''out of memory'', None, None] (initial sample_cfg sample_db)) ! 2
       = Inr (Some 1)"
proof -
  let ?lds = "[Some ''out of memory'', None, None]"
  note t = singleton_without_overlap [of ?lds sample_cfg sample_db]
  from t have a: "constructions (snd (calls ?lds (initial sample_cfg sample_db))) = 1"
    by simp
  from t have all: "\<forall>i < length ?lds.
         (None \<in> set (take (Suc i) ?lds) \<longrightarrow>
            fst (calls ?lds (initial sample_cfg sample_db)) ! i = Inr (Some 1))
       \<and> (\<forall>e. None \<notin> set (take (Suc i) ?lds) \<and> ?lds ! i = Some e \<longrightarrow>
            fst (calls ?lds (initial sample_cfg sample_db)) ! i = Inl e)"
    by blast
  from all [rule_format, of 0] have b:
    "fst (calls ?lds (initial sample_cfg sample_db)) ! 0 = Inl ''out of memory''"
    by simp
  from all [rule_format, of 1] have c:
    "fst (calls ?lds (initial sample_cfg sample_db)) ! 1 = Inr (Some 1)"
    by simp
  from all [rule_format, of 2] have d:
    "fst (calls ?lds (initial sample_cfg sample_db)) ! 2 = Inr (Some 1)"
    by simp
  from a b c d show ?thesis by blast
qed

text \<open>
  C9 as stated fails when two first calls overlap: both callers test before either has
  stored an engine, each then constructs one, and they return different instances.
\<close>

theorem racing_callers_counterexample:
  "fst (race ([AtTest, AtTest], initial sample_cfg sample_db)
          [(0, None), (1, None), (0, None), (0, None), (1, None), (1, None)])
     = [Returned (Some 1), Returned (Some 2)]
   \<and> constructions (snd (race ([AtTest, AtTest], initial sample_cfg sample_db)
          [(0, None), (1, None), (0, None), (0, None), (1, None), (1, None)])) = 2"
  by (simp add: race_def initial_def get_model_test_def get_model_load_def
      get_model_return_def)

end
